theory Spec2Isabelle
  imports Main "HOL-Library.Word"
begin

section \<open>Collaborators of zipper/dispatch.go\<close>

text \<open>
  The file \<^verbatim>\<open>zipper/dispatch.go\<close> talks to packages that are not part of it: the frame
  codec (\<^verbatim>\<open>internal/frame\<close>, \<^verbatim>\<open>internal/core\<close>), the QUIC transport
  (\<^verbatim>\<open>core/quic\<close>), the logger and the tracing hook. They are modelled by what the
  file uses of them.
\<close>

type_synonym byte = "8 word"

text \<open>A data frame: the file reads its transaction id and its carriage, and encodes it.\<close>

record data_frame =
  transactionID :: string
  carriage :: "byte list"

text \<open>
  A frame is a data frame or a frame of another kind, told apart by its type tag. Only a
  data frame carries \<open>TagOfDataFrame\<close>, which is what the type assertion
  \<^verbatim>\<open>f.(*frame.DataFrame)\<close> after the tag test relies on.
\<close>

datatype frame_type = TagOfDataFrame | TagOfOtherFrame nat

datatype frame = DataFrame data_frame | OtherFrame nat

fun Type :: "frame \<Rightarrow> frame_type" where
  "Type (DataFrame d) = TagOfDataFrame"
| "Type (OtherFrame k) = TagOfOtherFrame k"

text \<open>The type assertion \<^verbatim>\<open>f.(*frame.DataFrame)\<close>; \<open>None\<close> is its panic.\<close>

fun as_DataFrame :: "frame \<Rightarrow> data_frame option" where
  "as_DataFrame (DataFrame d) = Some d"
| "as_DataFrame (OtherFrame k) = None"

text \<open>
  A stream to read frames from is the list of the results of the successive calls
  \<^verbatim>\<open>core.ParseFrame(stream)\<close>: an error (\<open>Inl\<close>) or a frame. On the empty list
  the call waits for bytes that never arrive.
\<close>

type_synonym quic_stream = "(string + frame) list"

text \<open>
  A send stream, as \<^verbatim>\<open>session.OpenUniStream()\<close> returns it: its identity and the error
  its \<^verbatim>\<open>Write\<close> returns (\<open>None\<close> for \<^verbatim>\<open>nil\<close>). A session: its identity and the
  result of \<^verbatim>\<open>OpenUniStream\<close>.
\<close>

datatype send_stream = SendStream (stream_id: nat) (write_err: "string option")

datatype quic_session = Session (session_id: nat) (open_uni: "string + send_stream")

text \<open>
  A replica of a stream function: the session, \<open>None\<close> for a \<^verbatim>\<open>nil\<close> session, and
  the cancel function, named by a number; calling it is recorded as an event.
\<close>

record streamFunc =
  session :: "quic_session option"
  cancel :: nat

type_synonym GetStreamFunc = "unit \<Rightarrow> string \<times> streamFunc list"

text \<open>
  The calls the file makes on its collaborators, in the order it makes them.
\<close>

datatype log_level = Debug | Info | Error | Printf

datatype event =
    Log log_level string
  | ParseFrame
  | CancelCalled nat
  | OpenUniStream nat
  | StreamWrite nat "byte list"
  | StreamClose nat
  | SpanEnd nat

text \<open>
  The frame encoder and the tracing hook are parameters: \<^verbatim>\<open>data.Encode()\<close> and
  \<^verbatim>\<open>tracing.NewSpanFromData\<close>, which returns a span (named by a number) or
  \<^verbatim>\<open>nil\<close>.
\<close>

record env =
  Encode :: "data_frame \<Rightarrow> byte list"
  NewSpanFromData :: "byte list \<Rightarrow> string \<Rightarrow> string \<Rightarrow> nat option"

section \<open>Outcomes\<close>

text \<open>
  A function returns, waits for ever (in a read with no bytes to come, in a send nobody
  takes, or in a select none of whose cases becomes ready), or panics; each with the state
  reached.
\<close>

datatype 'a outcome = Returned 'a | Blocked 'a | Panicked 'a

section \<open>Channels\<close>

text \<open>
  A Go channel: its capacity, the items sent on it so far, oldest first, and the number of
  times it was closed. The receiving side is another goroutine; of it the model keeps
  \<open>receives\<close>, the number of items it takes off the channel in the whole run, \<open>None\<close>
  when it goes on receiving for as long as items come.

  A send on a closed channel panics. Otherwise a send completes, at once or after
  waiting, when the item finds a place: the receiver takes \<open>r\<close> items and the buffer
  holds \<open>capacity\<close> more, so the items up to number \<open>r + capacity\<close> are sent and the
  send of the next one waits for ever. The close of a closed channel panics.
\<close>

record 'a chan =
  capacity :: nat
  receives :: "nat option"
  sent :: "'a list"
  closes :: nat

definition make_chan :: "nat \<Rightarrow> nat option \<Rightarrow> 'a chan" where
  "make_chan n rcv = \<lparr>capacity = n, receives = rcv, sent = [], closes = 0\<rparr>"

text \<open>The channel takes \<open>n\<close> more items.\<close>

definition room_for :: "'a chan \<Rightarrow> nat \<Rightarrow> bool" where
  "room_for c n =
     (case receives c of
        None \<Rightarrow> True
      | Some r \<Rightarrow> length (sent c) + n \<le> r + capacity c)"

definition chan_send :: "'a \<Rightarrow> 'a chan \<Rightarrow> 'a chan outcome" where
  "chan_send x c =
     (if 0 < closes c then Panicked c
      else if room_for c 1 then Returned (c\<lparr>sent := sent c @ [x]\<rparr>)
      else Blocked c)"

definition chan_close :: "'a chan \<Rightarrow> 'a chan option" where
  "chan_close c = (if 0 < closes c then None else Some (c\<lparr>closes := Suc (closes c)\<rparr>))"

definition bufferSize :: nat where
  "bufferSize = 100"

section \<open>State\<close>

text \<open>
  The state a function of the file works on: the channel \<^verbatim>\<open>next\<close> it is given (or
  makes) and the calls made so far.
\<close>

record world =
  next_ch :: "data_frame chan"
  effects :: "event list"

definition emit :: "event \<Rightarrow> world \<Rightarrow> world" where
  "emit e w = w\<lparr>effects := effects w @ [e]\<rparr>"

definition logger :: "log_level \<Rightarrow> string \<Rightarrow> world \<Rightarrow> world" where
  "logger lvl msg w = emit (Log lvl msg) w"

text \<open>
  The statement \<^verbatim>\<open>next <- data\<close>: it completes, or the goroutine stays in it, or it
  panics.
\<close>

definition send_next :: "data_frame \<Rightarrow> world \<Rightarrow> world outcome" where
  "send_next d w =
     (case chan_send d (next_ch w) of
        Returned c \<Rightarrow> Returned (w\<lparr>next_ch := c\<rparr>)
      | Blocked c \<Rightarrow> Blocked w
      | Panicked c \<Rightarrow> Panicked w)"

text \<open>
  \<^verbatim>\<open>if span != nil { defer span.End() }\<close>: the deferred call runs when the function
  returns and when it panics.
\<close>

fun run_deferred :: "nat option \<Rightarrow> world outcome \<Rightarrow> world outcome" where
  "run_deferred None r = r"
| "run_deferred (Some sp) (Returned w) = Returned (emit (SpanEnd sp) w)"
| "run_deferred (Some sp) (Panicked w) = Panicked (emit (SpanEnd sp) w)"
| "run_deferred (Some sp) (Blocked w) = Blocked w"

section \<open>sendDataToStreamFn\<close>

definition sendDataToStreamFn ::
  "env \<Rightarrow> string \<Rightarrow> quic_session option \<Rightarrow> nat \<Rightarrow> data_frame \<Rightarrow> world \<Rightarrow> world outcome" where
  "sendDataToStreamFn E name sess cncl data w =
     (case sess of
        None \<Rightarrow>
          (let w1 = logger Error ''[MergeStreamFunc] the session of the stream-function is nil'' w in
           case send_next data w1 of
             Returned w2 \<Rightarrow> Returned (emit (CancelCalled cncl) w2)
           | Blocked w2 \<Rightarrow> Blocked w2
           | Panicked w2 \<Rightarrow> Panicked w2)
      | Some s \<Rightarrow>
          (let span = NewSpanFromData E (carriage data) name (''zipper-send-to-'' @ name) in
           run_deferred span
             (case open_uni s of
                Inl err \<Rightarrow>
                  (let w1 = logger Error ''[MergeStreamFunc] session.OpenUniStream failed''
                              (emit (OpenUniStream (session_id s)) w) in
                   case send_next data w1 of
                     Returned w2 \<Rightarrow> Returned (emit (CancelCalled cncl) w2)
                   | Blocked w2 \<Rightarrow> Blocked w2
                   | Panicked w2 \<Rightarrow> Panicked w2)
              | Inr stream \<Rightarrow>
                  (let w1 = emit (StreamClose (stream_id stream))
                              (emit (StreamWrite (stream_id stream) (Encode E data))
                                (emit (OpenUniStream (session_id s)) w)) in
                   case write_err stream of
                     Some err \<Rightarrow>
                       Returned (emit (CancelCalled cncl)
                         (logger Error ''[MergeStreamFunc] YoMo-Zipper sent data to stream-fn failed.'' w1))
                   | None \<Rightarrow>
                       Returned (logger Debug ''[MergeStreamFunc] YoMo-Zipper sent data to stream-fn.'' w1)))))"

section \<open>dispatchToStreamFn\<close>

text \<open>
  Go's \<^verbatim>\<open>%\<close> on integers truncates towards zero: the remainder has the sign of the
  dividend.
\<close>

definition go_rem :: "int \<Rightarrow> int \<Rightarrow> int" where
  "go_rem a b = sgn a * (\<bar>a\<bar> mod \<bar>b\<bar>)"

text \<open>
  A goroutine started by \<^verbatim>\<open>go sendDataToStreamFn(name, session, cancel, data, next)\<close>,
  with its arguments.
\<close>

datatype goroutine = GoSendDataToStreamFn string "quic_session option" nat data_frame

text \<open>
  What one call of \<open>dispatchToStreamFn\<close> leaves: the value of its local variable
  \<^verbatim>\<open>nextNum\<close> when it returns, the goroutines it started and the log lines it wrote.
\<close>

record dispatched =
  nextNum :: "32 word"
  started :: "goroutine list"
  logged :: "event list"

text \<open>
  \<^verbatim>\<open>var nextNum uint32\<close> is a local variable of the function, zero at every call.
  \<^verbatim>\<open>atomic.AddUint32(&nextNum, 1)\<close> adds one (wrapping at 32 bits) and returns the new
  value; \<^verbatim>\<open>funcs[i]\<close> panics when \<open>i\<close> is out of range.
\<close>

definition dispatchToStreamFn :: "GetStreamFunc \<Rightarrow> data_frame \<Rightarrow> dispatched outcome" where
  "dispatchToStreamFn sfn data =
     (let nextNum0 = (0 :: 32 word);
          (name, funcs) = sfn ();
          len = length funcs
      in if len = 0 then
           Returned \<lparr>nextNum = nextNum0, started = [],
                     logged = [Log Info ''no available sessions in stream fn.'']\<rparr>
         else if len = 1 then
           Returned \<lparr>nextNum = nextNum0,
                     started = [GoSendDataToStreamFn name (session (funcs ! 0)) (cancel (funcs ! 0)) data],
                     logged = []\<rparr>
         else
           (let n = nextNum0 + 1;
                i = go_rem (uint n - 1) (int len);
                lg = [Log Debug ''[MergeStreamFunc] dispatch data to next stream-function'']
            in if 0 \<le> i \<and> i < int len then
                 Returned \<lparr>nextNum = n,
                           started = [GoSendDataToStreamFn name (session (funcs ! nat i))
                                        (cancel (funcs ! nat i)) data],
                           logged = lg\<rparr>
               else Panicked \<lparr>nextNum = n, started = [], logged = lg\<rparr>))"

text \<open>Running a started goroutine to its end.\<close>

fun run_goroutine :: "env \<Rightarrow> goroutine \<Rightarrow> world \<Rightarrow> world outcome" where
  "run_goroutine E (GoSendDataToStreamFn name sess cncl data) w =
     sendDataToStreamFn E name sess cncl data w"

section \<open>Contexts and selects\<close>

text \<open>
  A non-blocking test of \<^verbatim>\<open>ctx.Done()\<close> (a select with a default case) is a poll.
  The context is \<open>Some k\<close> when the next \<open>k\<close> polls find it alive and every later one
  finds it done, and \<open>None\<close> when it is never cancelled.
\<close>

type_synonym ctx = "nat option"

fun ctx_done :: "ctx \<Rightarrow> bool" where
  "ctx_done (Some 0) = True"
| "ctx_done c = False"

fun ctx_after :: "ctx \<Rightarrow> ctx" where
  "ctx_after (Some (Suc k)) = Some k"
| "ctx_after c = c"

text \<open>
  A blocking select over \<^verbatim>\<open>ctx.Done()\<close> and a receive from a channel takes the case
  the runtime picks: the context is done, an item was received, or the channel is closed
  (\<^verbatim>\<open>ok == false\<close>). A loop around such a select is run on the list of the cases
  picked; when the list is used up the select waits.
\<close>

datatype 'a select_result = CtxDone | Received 'a | ChanClosed

section \<open>readDataFromSource\<close>

text \<open>The body of the goroutine, before the deferred \<^verbatim>\<open>close(next)\<close>.\<close>

fun readDataFromSource_loop :: "ctx \<Rightarrow> quic_stream \<Rightarrow> world \<Rightarrow> world outcome" where
  "readDataFromSource_loop c [] w =
     (if ctx_done c then Returned w else Blocked (emit ParseFrame w))"
| "readDataFromSource_loop c (r # stream) w =
     (if ctx_done c then Returned w
      else
        (case r of
           Inl err \<Rightarrow> Returned (logger Error ''Parse the frame failed'' (emit ParseFrame w))
         | Inr f \<Rightarrow>
             (if Type f = TagOfDataFrame then
                (case as_DataFrame f of
                   None \<Rightarrow> Panicked (emit ParseFrame w)
                 | Some dataFrame \<Rightarrow>
                     (let w1 = logger Debug ''Receive data frame from source.'' (emit ParseFrame w) in
                      case send_next dataFrame w1 of
                        Returned w2 \<Rightarrow> readDataFromSource_loop (ctx_after c) stream w2
                      | Blocked w2 \<Rightarrow> Blocked w2
                      | Panicked w2 \<Rightarrow> Panicked w2))
              else
                readDataFromSource_loop (ctx_after c) stream
                  (logger Debug ''Only dispatch data frame to stream functions.'' (emit ParseFrame w)))))"

text \<open>
  \<^verbatim>\<open>defer close(next)\<close>: runs when the goroutine returns or panics, not while it
  waits.
\<close>

fun deferred_close :: "world outcome \<Rightarrow> world outcome" where
  "deferred_close (Returned w) =
     (case chan_close (next_ch w) of
        None \<Rightarrow> Panicked w
      | Some c \<Rightarrow> Returned (w\<lparr>next_ch := c\<rparr>))"
| "deferred_close (Panicked w) =
     (case chan_close (next_ch w) of
        None \<Rightarrow> Panicked w
      | Some c \<Rightarrow> Panicked (w\<lparr>next_ch := c\<rparr>))"
| "deferred_close (Blocked w) = Blocked w"

text \<open>
  The function makes the channel \<^verbatim>\<open>next\<close> and returns it at once; what follows is its
  goroutine. The argument \<open>rcv\<close> says how many items the reader of the channel takes.
\<close>

definition readDataFromSource :: "ctx \<Rightarrow> quic_stream \<Rightarrow> nat option \<Rightarrow> world outcome" where
  "readDataFromSource c stream rcv =
     deferred_close
       (readDataFromSource_loop c stream
          \<lparr>next_ch = make_chan bufferSize rcv, effects = []\<rparr>)"

section \<open>readDataFromStreamFn\<close>

fun readDataFromStreamFn :: "env \<Rightarrow> ctx \<Rightarrow> string \<Rightarrow> quic_stream \<Rightarrow> world \<Rightarrow> world outcome" where
  "readDataFromStreamFn E c name [] w =
     (if ctx_done c then Returned w
      else Blocked (emit ParseFrame (logger Printf ''waiting read next..'' w)))"
| "readDataFromStreamFn E c name (r # stream) w =
     (if ctx_done c then Returned w
      else
        (let w0 = emit ParseFrame (logger Printf ''waiting read next..'' w) in
         case r of
           Inl err \<Rightarrow>
             Returned (logger Debug ''[MergeStreamFunc] YoMo-Zipper received data from stream-fn failed.'' w0)
         | Inr f \<Rightarrow>
             (let w1 = logger Debug ''[MergeStreamFunc] YoMo-Zipper received data from stream-fn.'' w0 in
              if Type f \<noteq> TagOfDataFrame then
                readDataFromStreamFn E (ctx_after c) name stream
                  (logger Debug ''[MergeStreamFunc] YoMo-Zipper received frame from stream-fn, but the frame type is not a DataFrame.'' w1)
              else
                (case as_DataFrame f of
                   None \<Rightarrow> Panicked w1
                 | Some data \<Rightarrow>
                     (let w2 = logger Printf ''receive complete data'' w1;
                          span = NewSpanFromData E (carriage data) name (''zipper-receive-from-'' @ name)
                      in run_deferred span
                           (case send_next data w2 of
                              Returned w3 \<Rightarrow> Returned w3
                            | Blocked w3 \<Rightarrow> Blocked w3
                            | Panicked w3 \<Rightarrow> Panicked w3))))))"

section \<open>pipeStreamFn: the send loop\<close>

text \<open>
  The inner goroutine of \<open>pipeStreamFn\<close> selects over \<^verbatim>\<open>ctx.Done()\<close> and
  \<^verbatim>\<open>upstream\<close> and starts \<^verbatim>\<open>go dispatchToStreamFn(sfn, item, next)\<close> for every item
  received. The result lists the calls started, each with what it leaves.
\<close>

fun pipeStreamFn_send ::
  "GetStreamFunc \<Rightarrow> data_frame select_result list \<Rightarrow> dispatched outcome list outcome" where
  "pipeStreamFn_send sfn [] = Blocked []"
| "pipeStreamFn_send sfn (CtxDone # rs) = Returned []"
| "pipeStreamFn_send sfn (ChanClosed # rs) = Returned []"
| "pipeStreamFn_send sfn (Received item # rs) =
     (case pipeStreamFn_send sfn rs of
        Returned ds \<Rightarrow> Returned (dispatchToStreamFn sfn item # ds)
      | Blocked ds \<Rightarrow> Blocked (dispatchToStreamFn sfn item # ds)
      | Panicked ds \<Rightarrow> Panicked (dispatchToStreamFn sfn item # ds))"

section \<open>receiveResponseFromStreamFn\<close>

text \<open>
  The session directory \<^verbatim>\<open>newStreamFuncSessionCache\<close> is a \<^verbatim>\<open>sync.Map\<close> declared
  elsewhere in the package, from the name of a stream function to a channel of sessions.
  Channels are references: \<open>queues\<close> holds the capacity of every session channel made
  so far, and the address of a channel is its position there.
\<close>

record directory =
  queues :: "nat list"
  newStreamFuncSessionCache :: "string \<rightharpoonup> nat"

text \<open>\<^verbatim>\<open>make(chan quic.Session, n)\<close>: a new channel, at a new address.\<close>

definition make_queue :: "nat \<Rightarrow> directory \<Rightarrow> nat \<times> directory" where
  "make_queue n dir = (length (queues dir), dir\<lparr>queues := queues dir @ [n]\<rparr>)"

text \<open>
  \<^verbatim>\<open>sync.Map.LoadOrStore(key, v)\<close>: the value stored under the key when there is one,
  otherwise \<open>v\<close>, which it stores; with whether the value was loaded.
\<close>

definition LoadOrStore :: "string \<Rightarrow> nat \<Rightarrow> directory \<Rightarrow> (nat \<times> bool) \<times> directory" where
  "LoadOrStore k v dir =
     (case newStreamFuncSessionCache dir k of
        Some actual \<Rightarrow> ((actual, True), dir)
      | None \<Rightarrow> ((v, False),
          dir\<lparr>newStreamFuncSessionCache := (newStreamFuncSessionCache dir)(k \<mapsto> v)\<rparr>))"

text \<open>
  The loop of \<open>receiveResponseFromStreamFn\<close>, on the cases its select takes. It
  collects the sessions for which it started the goroutine that accepts streams.
\<close>

fun receive_loop ::
  "quic_session option select_result list \<Rightarrow> quic_session list \<Rightarrow> quic_session list outcome" where
  "receive_loop [] acc = Blocked acc"
| "receive_loop (CtxDone # rs) acc = Returned acc"
| "receive_loop (ChanClosed # rs) acc = Returned acc"
| "receive_loop (Received None # rs) acc = receive_loop rs acc"
| "receive_loop (Received (Some s) # rs) acc = receive_loop rs (acc @ [s])"

text \<open>
  The function returns the address of the channel it listens on, the directory it leaves
  and the outcome of its loop.
\<close>

definition receiveResponseFromStreamFn ::
  "GetStreamFunc \<Rightarrow> quic_session option select_result list \<Rightarrow> directory
     \<Rightarrow> nat \<times> directory \<times> quic_session list outcome" where
  "receiveResponseFromStreamFn sfn rs dir =
     (let (name, funcs) = sfn ();
          (q, dir1) = make_queue 5 dir;
          ((ch, loaded), dir2) = LoadOrStore name q dir1
      in (ch, dir2, receive_loop rs []))"

section \<open>pipeStreamFn: the goroutine that closes the channel\<close>


section \<open>Observing runs\<close>

text \<open>The state an outcome carries.\<close>

fun state_of :: "'a outcome \<Rightarrow> 'a" where
  "state_of (Returned x) = x"
| "state_of (Blocked x) = x"
| "state_of (Panicked x) = x"

text \<open>The calls made, and the items sent on the channel, between two states of a run.\<close>

definition new_events :: "world \<Rightarrow> world \<Rightarrow> event list" where
  "new_events w w' = drop (length (effects w)) (effects w')"

definition forwarded :: "world \<Rightarrow> world \<Rightarrow> data_frame list" where
  "forwarded w w' = drop (length (sent (next_ch w))) (sent (next_ch w'))"

fun is_cancel :: "event \<Rightarrow> bool" where
  "is_cancel (CancelCalled k) = True"
| "is_cancel e = False"

fun is_open :: "event \<Rightarrow> bool" where
  "is_open (OpenUniStream k) = True"
| "is_open e = False"

fun is_write :: "event \<Rightarrow> bool" where
  "is_write (StreamWrite k bs) = True"
| "is_write e = False"

fun is_close :: "event \<Rightarrow> bool" where
  "is_close (StreamClose k) = True"
| "is_close e = False"

text \<open>The context stays alive for the next \<open>n\<close> polls.\<close>

fun ctx_alive_for :: "ctx \<Rightarrow> nat \<Rightarrow> bool" where
  "ctx_alive_for None n = True"
| "ctx_alive_for (Some k) n = (n \<le> k)"

text \<open>The data frames of a list of frames, in order.\<close>

definition data_frames :: "frame list \<Rightarrow> data_frame list" where
  "data_frames fs = List.map_filter as_DataFrame (filter (\<lambda>f. Type f = TagOfDataFrame) fs)"

text \<open>The first \<open>k\<close> items of a list when the bound is \<open>Some k\<close>, all when it is \<open>None\<close>.\<close>

fun take_upto :: "nat option \<Rightarrow> 'a list \<Rightarrow> 'a list" where
  "take_upto None xs = xs"
| "take_upto (Some k) xs = take k xs"

text \<open>
  The number of items a channel still takes: what its reader receives and its buffer holds,
  less what was sent; \<open>None\<close> when its reader goes on receiving.
\<close>

definition free_places :: "'a chan \<Rightarrow> nat option" where
  "free_places c = map_option (\<lambda>r. r + capacity c - length (sent c)) (receives c)"

text \<open>
  The frames a polling read loop parses when no send stops it: the results the context
  lets it read, up to the first that is an error.
\<close>

definition parsed_frames :: "ctx \<Rightarrow> quic_stream \<Rightarrow> frame list" where
  "parsed_frames c stream = map projr (takeWhile (\<lambda>r. \<not> isl r) (take_upto c stream))"

text \<open>The calls \<open>readDataFromSource\<close> makes for one frame it parsed.\<close>

fun source_events :: "frame \<Rightarrow> event list" where
  "source_events (DataFrame d) = [ParseFrame, Log Debug ''Receive data frame from source.'']"
| "source_events (OtherFrame k) =
     [ParseFrame, Log Debug ''Only dispatch data frame to stream functions.'']"

text \<open>
  The calls \<open>readDataFromStreamFn\<close> makes for a parsed frame that is not a data frame.
\<close>

definition skipped_events :: "event list" where
  "skipped_events =
     [Log Printf ''waiting read next..'', ParseFrame,
      Log Debug ''[MergeStreamFunc] YoMo-Zipper received data from stream-fn.'',
      Log Debug ''[MergeStreamFunc] YoMo-Zipper received frame from stream-fn, but the frame type is not a DataFrame.'']"

text \<open>
  The goroutines a call started, run to their ends one after the other, and a call of
  \<open>dispatchToStreamFn\<close> followed by the goroutine it started.
\<close>

fun run_all :: "env \<Rightarrow> goroutine list \<Rightarrow> world \<Rightarrow> world outcome" where
  "run_all E [] w = Returned w"
| "run_all E (g # gs) w =
     (case run_goroutine E g w of
        Returned w' \<Rightarrow> run_all E gs w'
      | Blocked w' \<Rightarrow> Blocked w'
      | Panicked w' \<Rightarrow> Panicked w')"

definition dispatch_and_run :: "env \<Rightarrow> GetStreamFunc \<Rightarrow> data_frame \<Rightarrow> world \<Rightarrow> world outcome" where
  "dispatch_and_run E sfn data w =
     (case dispatchToStreamFn sfn data of
        Returned r \<Rightarrow> run_all E (started r) (w\<lparr>effects := effects w @ logged r\<rparr>)
      | Blocked r \<Rightarrow> Blocked (w\<lparr>effects := effects w @ logged r\<rparr>)
      | Panicked r \<Rightarrow> Panicked (w\<lparr>effects := effects w @ logged r\<rparr>))"

text \<open>The session and the cancel function each started send was given, in order.\<close>

fun target :: "goroutine \<Rightarrow> quic_session option \<times> nat" where
  "target (GoSendDataToStreamFn name sess cncl data) = (sess, cncl)"

definition targets :: "dispatched outcome list \<Rightarrow> (quic_session option \<times> nat) list" where
  "targets ds = concat (map (\<lambda>r. map target (started (state_of r))) ds)"

text \<open>The sessions of a list that are not \<^verbatim>\<open>nil\<close>, in order.\<close>

fun non_nil :: "'a option list \<Rightarrow> 'a list" where
  "non_nil [] = []"
| "non_nil (None # ms) = non_nil ms"
| "non_nil (Some s # ms) = s # non_nil ms"

text \<open>
  The calls \<open>readDataFromStreamFn\<close> makes for a parsed data frame, before the send.
\<close>

definition received_events :: "event list" where
  "received_events =
     [Log Printf ''waiting read next..'', ParseFrame,
      Log Debug ''[MergeStreamFunc] YoMo-Zipper received data from stream-fn.'',
      Log Printf ''receive complete data'']"

text \<open>
  A directory in which every entry is the address of a channel that was made, with
  capacity 5, as the entries this file stores are.
\<close>

definition directory_inv :: "directory \<Rightarrow> bool" where
  "directory_inv dir =
     (\<forall>k q. newStreamFuncSessionCache dir k = Some q \<longrightarrow>
        q < length (queues dir) \<and> queues dir ! q = 5)"

section \<open>Example values\<close>

text \<open>
  An encoder that writes the carriage and a tracing hook that always returns span 0; three
  data frames; two replicas with working sessions; a session whose
  \<^verbatim>\<open>OpenUniStream\<close> fails and one whose stream fails to write; a state with a newly
  made channel whose reader keeps receiving, one whose channel is closed, and one whose
  channel is full and is not read.
\<close>

definition example_env :: env where
  "example_env = \<lparr>Encode = carriage, NewSpanFromData = (\<lambda>c n l. Some 0)\<rparr>"

definition frame_a :: data_frame where
  "frame_a = \<lparr>transactionID = ''a'', carriage = [97]\<rparr>"

definition frame_b :: data_frame where
  "frame_b = \<lparr>transactionID = ''b'', carriage = [98]\<rparr>"

definition frame_c :: data_frame where
  "frame_c = \<lparr>transactionID = ''c'', carriage = [99]\<rparr>"

definition replica_R0 :: streamFunc where
  "replica_R0 = \<lparr>session = Some (Session 0 (Inr (SendStream 0 None))), cancel = 0\<rparr>"

definition replica_R1 :: streamFunc where
  "replica_R1 = \<lparr>session = Some (Session 1 (Inr (SendStream 1 None))), cancel = 1\<rparr>"

definition session_no_open :: quic_session where
  "session_no_open = Session 2 (Inl ''open failed'')"

definition session_no_write :: quic_session where
  "session_no_write = Session 3 (Inr (SendStream 3 (Some ''write failed'')))"

definition fresh_world :: world where
  "fresh_world = \<lparr>next_ch = make_chan bufferSize None, effects = []\<rparr>"

definition closed_world :: world where
  "closed_world =
     \<lparr>next_ch = \<lparr>capacity = bufferSize, receives = None, sent = [], closes = 1\<rparr>,
      effects = []\<rparr>"

definition full_world :: world where
  "full_world =
     \<lparr>next_ch = \<lparr>capacity = 2, receives = Some 0, sent = [frame_b, frame_c], closes = 0\<rparr>,
      effects = []\<rparr>"

definition empty_directory :: directory where
  "empty_directory = \<lparr>queues = [], newStreamFuncSessionCache = Map.empty\<rparr>"

section \<open>The send path\<close>

lemma run_deferred_Returned:
  "run_deferred sp (Returned w) =
     Returned (case sp of None \<Rightarrow> w | Some k \<Rightarrow> emit (SpanEnd k) w)"
  by (cases sp) simp_all

lemma run_deferred_Panicked:
  "run_deferred sp (Panicked w) =
     Panicked (case sp of None \<Rightarrow> w | Some k \<Rightarrow> emit (SpanEnd k) w)"
  by (cases sp) simp_all

lemma run_deferred_Blocked: "run_deferred sp (Blocked w) = Blocked w"
  by (cases sp) simp_all

lemmas send_defs = sendDataToStreamFn_def send_next_def chan_send_def logger_def emit_def
  new_events_def forwarded_def Let_def run_deferred_Returned run_deferred_Panicked
  run_deferred_Blocked

lemmas example_defs = example_env_def frame_a_def frame_b_def frame_c_def replica_R0_def
  replica_R1_def session_no_open_def session_no_write_def fresh_world_def closed_world_def
  full_world_def make_chan_def room_for_def




text \<open>
  Claim C3. When \<^verbatim>\<open>OpenUniStream\<close> succeeds and the write on the stream fails,
  \<open>sendDataToStreamFn\<close> returns, having called the replica's cancel function once and
  sent nothing on \<^verbatim>\<open>next\<close>: the channel is as it was.
\<close>

theorem sendDataToStreamFn_write_failure:
  assumes "open_uni s = Inr st" and "write_err st = Some err"
  shows "\<exists>w'. sendDataToStreamFn E name (Some s) cncl data w = Returned w'
           \<and> next_ch w' = next_ch w
           \<and> forwarded w w' = []
           \<and> filter is_cancel (new_events w w') = [CancelCalled cncl]"
  using assms
  by (auto simp: send_defs split: option.splits sum.splits)

theorem sendDataToStreamFn_write_failure_witness:
  "open_uni session_no_write = Inr (SendStream 3 (Some ''write failed''))
   \<and> write_err (SendStream 3 (Some ''write failed'')) = Some ''write failed''
   \<and> (\<exists>w'. sendDataToStreamFn example_env ''fn'' (Some session_no_write) 7 frame_a fresh_world
             = Returned w'
          \<and> next_ch w' = next_ch fresh_world
          \<and> forwarded fresh_world w' = []
          \<and> filter is_cancel (new_events fresh_world w') = [CancelCalled 7])"
proof -
  have o: "open_uni session_no_write = Inr (SendStream 3 (Some ''write failed''))"
    by (simp add: example_defs)
  have e: "write_err (SendStream 3 (Some ''write failed'')) = Some ''write failed''"
    by simp
  from sendDataToStreamFn_write_failure [OF o e] o e show ?thesis
    by blast
qed

text \<open>
  Claim C10. When \<^verbatim>\<open>OpenUniStream\<close> succeeds, \<open>sendDataToStreamFn\<close> returns, and
  between the call and the return it opened one stream, wrote the encoded item to it and
  then closed it, once, whether the write failed or not.
\<close>

theorem sendDataToStreamFn_closes_stream:
  assumes "open_uni s = Inr st"
  shows "\<exists>w'. sendDataToStreamFn E name (Some s) cncl data w = Returned w'
           \<and> filter is_close (new_events w w') = [StreamClose (stream_id st)]
           \<and> filter is_open (new_events w w') = [OpenUniStream (session_id s)]
           \<and> filter (\<lambda>e. is_write e \<or> is_close e) (new_events w w') =
               [StreamWrite (stream_id st) (Encode E data), StreamClose (stream_id st)]"
  using assms
  by (auto simp: send_defs split: option.splits sum.splits)

theorem sendDataToStreamFn_closes_stream_witness:
  "open_uni session_no_write = Inr (SendStream 3 (Some ''write failed''))
   \<and> (\<exists>w'. sendDataToStreamFn example_env ''fn'' (Some session_no_write) 7 frame_a fresh_world
             = Returned w'
          \<and> filter is_close (new_events fresh_world w') = [StreamClose 3])
   \<and> open_uni (Session 0 (Inr (SendStream 0 None))) = Inr (SendStream 0 None)
   \<and> (\<exists>w'. sendDataToStreamFn example_env ''fn'' (Some (Session 0 (Inr (SendStream 0 None))))
              0 frame_a fresh_world = Returned w'
          \<and> filter is_close (new_events fresh_world w') = [StreamClose 0])"
proof -
  have o: "open_uni session_no_write = Inr (SendStream 3 (Some ''write failed''))"
    by (simp add: example_defs)
  have p: "open_uni (Session 0 (Inr (SendStream 0 None))) = Inr (SendStream 0 None)"
    by simp
  from sendDataToStreamFn_closes_stream [OF o, of example_env "''fn''" 7 frame_a fresh_world]
  have a: "\<exists>w'. sendDataToStreamFn example_env ''fn'' (Some session_no_write) 7 frame_a fresh_world
             = Returned w'
          \<and> filter is_close (new_events fresh_world w') = [StreamClose 3]"
    by auto
  from sendDataToStreamFn_closes_stream [OF p, of example_env "''fn''" 0 frame_a fresh_world]
  have b: "\<exists>w'. sendDataToStreamFn example_env ''fn'' (Some (Session 0 (Inr (SendStream 0 None))))
              0 frame_a fresh_world = Returned w'
          \<and> filter is_close (new_events fresh_world w') = [StreamClose 0]"
    by auto
  from o p a b show ?thesis by blast
qed

section \<open>The dispatcher\<close>

lemma go_rem_zero [simp]: "go_rem 0 b = 0"
  by (simp add: go_rem_def)

text \<open>
  With two replicas or more, every call takes the replica at index 0: the counter starts
  at zero in each call, so the value after the increment is always 1.
\<close>

lemma dispatchToStreamFn_many_replicas:
  assumes "sfn () = (name, funcs)" and "2 \<le> length funcs"
  shows "dispatchToStreamFn sfn data =
           Returned \<lparr>nextNum = 1,
                     started = [GoSendDataToStreamFn name (session (funcs ! 0))
                                  (cancel (funcs ! 0)) data],
                     logged = [Log Debug ''[MergeStreamFunc] dispatch data to next stream-function'']\<rparr>"
  using assms by (auto simp: dispatchToStreamFn_def Let_def)

text \<open>
  Claim C1 says that with two replicas R0 and R1 the items a, b, c go to R0, R1, R0. The
  send loop of \<open>pipeStreamFn\<close>, run on these three items, starts three sends and gives
  each of them the session and the cancel function of R0, which are not those of R1.
\<close>

theorem dispatch_three_items_two_replicas:
  "targets (state_of (pipeStreamFn_send (\<lambda>u. (''fn'', [replica_R0, replica_R1]))
      [Received frame_a, Received frame_b, Received frame_c, ChanClosed]))
    = [(session replica_R0, cancel replica_R0), (session replica_R0, cancel replica_R0),
       (session replica_R0, cancel replica_R0)]
   \<and> (session replica_R0, cancel replica_R0) \<noteq> (session replica_R1, cancel replica_R1)"
  by (simp add: targets_def dispatchToStreamFn_def Let_def replica_R0_def replica_R1_def)

text \<open>
  Claim C4. When the stream function has no replica, \<open>dispatchToStreamFn\<close> returns
  without starting a send: it only writes a log line at level Info. Nothing is sent on
  \<^verbatim>\<open>next\<close>, no session is called, and the call does not panic.
\<close>

theorem dispatchToStreamFn_no_replicas:
  assumes "snd (sfn ()) = []"
  shows "dispatchToStreamFn sfn data =
           Returned \<lparr>nextNum = 0, started = [],
                     logged = [Log Info ''no available sessions in stream fn.'']\<rparr>
         \<and> dispatch_and_run E sfn data w =
             Returned (w\<lparr>effects := effects w @ [Log Info ''no available sessions in stream fn.'']\<rparr>)"
proof -
  obtain name funcs where sf: "sfn () = (name, funcs)" by (cases "sfn ()")
  with assms have "funcs = []" by simp
  with sf show ?thesis
    by (simp add: dispatchToStreamFn_def dispatch_and_run_def Let_def)
qed

theorem dispatchToStreamFn_no_replicas_witness:
  "snd ((\<lambda>u. (''fn'', [])) ()) = ([] :: streamFunc list)
   \<and> dispatch_and_run example_env (\<lambda>u. (''fn'', [])) frame_a fresh_world =
       Returned \<lparr>next_ch = make_chan bufferSize None,
                 effects = [Log Info ''no available sessions in stream fn.'']\<rparr>"
proof -
  have h: "snd ((\<lambda>u. (''fn'', [])) ()) = ([] :: streamFunc list)" by simp
  from dispatchToStreamFn_no_replicas [OF h, of frame_a example_env fresh_world] h
  show ?thesis by (simp add: fresh_world_def)
qed

text \<open>
  Claim C5. When the stream function has exactly one replica, \<open>dispatchToStreamFn\<close>
  starts one send, to that replica, and returns with its counter \<^verbatim>\<open>nextNum\<close> still
  zero: the increment is not reached. Running the call and the send it started is running
  \<open>sendDataToStreamFn\<close> on that replica once.
\<close>

theorem dispatchToStreamFn_one_replica:
  assumes "snd (sfn ()) = [f]"
  shows "dispatchToStreamFn sfn data =
           Returned \<lparr>nextNum = 0,
                     started = [GoSendDataToStreamFn (fst (sfn ())) (session f) (cancel f) data],
                     logged = []\<rparr>
         \<and> dispatch_and_run E sfn data w =
             sendDataToStreamFn E (fst (sfn ())) (session f) (cancel f) data w"
proof -
  obtain name funcs where sf: "sfn () = (name, funcs)" by (cases "sfn ()")
  with assms have "funcs = [f]" by simp
  with sf show ?thesis
    by (simp add: dispatchToStreamFn_def dispatch_and_run_def Let_def split: outcome.splits)
qed

theorem dispatchToStreamFn_one_replica_witness:
  "snd ((\<lambda>u. (''fn'', [replica_R1])) ()) = [replica_R1]
   \<and> dispatchToStreamFn (\<lambda>u. (''fn'', [replica_R1])) frame_a =
       Returned \<lparr>nextNum = 0,
                 started = [GoSendDataToStreamFn ''fn'' (Some (Session 1 (Inr (SendStream 1 None))))
                              1 frame_a],
                 logged = []\<rparr>"
proof -
  have h: "snd ((\<lambda>u. (''fn'', [replica_R1])) ()) = [replica_R1]" by simp
  from dispatchToStreamFn_one_replica [OF h, of frame_a] h
  show ?thesis by (simp add: replica_R1_def)
qed

section \<open>The reply receiver\<close>

lemma receive_loop_acc:
  "receive_loop (map Received ms @ rs) acc = receive_loop rs (acc @ non_nil ms)"
  by (induction ms arbitrary: acc rule: non_nil.induct) simp_all

lemma directory_inv_entry:
  assumes "directory_inv dir" and "newStreamFuncSessionCache dir k = Some q"
  shows "q < length (queues dir) \<and> queues dir ! q = 5"
  using assms unfolding directory_inv_def by blast

lemma directory_inv_alloc:
  assumes "directory_inv dir"
  shows "directory_inv (dir\<lparr>queues := queues dir @ [5]\<rparr>)"
  unfolding directory_inv_def
proof (intro allI impI)
  fix k q
  assume "newStreamFuncSessionCache (dir\<lparr>queues := queues dir @ [5]\<rparr>) k = Some q"
  then have "newStreamFuncSessionCache dir k = Some q" by simp
  from directory_inv_entry [OF assms this]
  show "q < length (queues (dir\<lparr>queues := queues dir @ [5]\<rparr>))
        \<and> queues (dir\<lparr>queues := queues dir @ [5]\<rparr>) ! q = 5"
    by (simp add: nth_append)
qed

lemma directory_inv_store:
  assumes "directory_inv dir"
  shows "directory_inv (dir\<lparr>queues := queues dir @ [5],
           newStreamFuncSessionCache :=
             (newStreamFuncSessionCache dir)(name \<mapsto> length (queues dir))\<rparr>)"
    (is "directory_inv ?d")
  unfolding directory_inv_def
proof (intro allI impI)
  fix k q
  assume e: "newStreamFuncSessionCache ?d k = Some q"
  show "q < length (queues ?d) \<and> queues ?d ! q = 5"
  proof (cases "k = name")
    case True
    with e have "q = length (queues dir)" by simp
    then show ?thesis by (simp add: nth_append)
  next
    case False
    with e have "newStreamFuncSessionCache dir k = Some q" by simp
    from directory_inv_entry [OF assms this] show ?thesis
      by (simp add: nth_append)
  qed
qed

text \<open>
  Claim C9. \<open>receiveResponseFromStreamFn\<close> gets the channel of sessions of its stream
  function by \<^verbatim>\<open>LoadOrStore\<close>: afterwards the directory maps the name to the channel
  it listens on and is otherwise as before; that channel is the one the directory already
  held for the name, or, when it held none, a new one of capacity 5; the channels made
  before are untouched; a second call for the same name gets the same channel and leaves
  the directory's entries as they are, so the name keeps one channel. When every entry of
  the directory is a channel of capacity 5, that is so afterwards too, and the channel
  listened on has capacity 5. In the loop, a \<^verbatim>\<open>nil\<close> session received is passed over
  and the loop goes on: accept goroutines are started for the other sessions, in order; on
  a closed channel the loop returns, and when nothing more arrives it waits.
\<close>

theorem receiveResponseFromStreamFn_directory:
  "(case receiveResponseFromStreamFn sfn (map Received ms @ ChanClosed # rest) dir of
      (ch, dir', r) \<Rightarrow>
        newStreamFuncSessionCache dir' = (newStreamFuncSessionCache dir)(fst (sfn ()) \<mapsto> ch)
        \<and> (case newStreamFuncSessionCache dir (fst (sfn ())) of
              Some q \<Rightarrow> ch = q
            | None \<Rightarrow> ch = length (queues dir) \<and> queues dir' ! ch = 5)
        \<and> take (length (queues dir)) (queues dir') = queues dir
        \<and> fst (receiveResponseFromStreamFn sfn rs2 dir') = ch
        \<and> newStreamFuncSessionCache (fst (snd (receiveResponseFromStreamFn sfn rs2 dir')))
            = newStreamFuncSessionCache dir'
        \<and> (directory_inv dir \<longrightarrow> directory_inv dir' \<and> queues dir' ! ch = 5)
        \<and> r = Returned (non_nil ms))
   \<and> snd (snd (receiveResponseFromStreamFn sfn (map Received ms) dir)) = Blocked (non_nil ms)"
proof -
  obtain name funcs where sf: "sfn () = (name, funcs)" by (cases "sfn ()")
  show ?thesis
    using receive_loop_acc [of ms "ChanClosed # rest" "[]"] receive_loop_acc [of ms "[]" "[]"]
      sf directory_inv_store [of dir name] directory_inv_alloc [of dir]
      directory_inv_entry [of dir name]
    by (auto simp: receiveResponseFromStreamFn_def make_queue_def LoadOrStore_def Let_def
        nth_append split: prod.splits option.splits)
qed

theorem receiveResponseFromStreamFn_directory_witness:
  "directory_inv empty_directory
   \<and> receiveResponseFromStreamFn (\<lambda>u. (''fn'', []))
       [Received None, Received (Some session_no_open), ChanClosed] empty_directory
     = (0, \<lparr>queues = [5], newStreamFuncSessionCache = [''fn'' \<mapsto> 0]\<rparr>,
        Returned [session_no_open])"
proof -
  have i: "directory_inv empty_directory"
    by (simp add: directory_inv_def empty_directory_def)
  from receiveResponseFromStreamFn_directory
    [where sfn = "\<lambda>u. (''fn'', [])" and ms = "[None, Some session_no_open]" and rest = "[]"
       and dir = empty_directory and ?rs2.0 = "[]"] i
  show ?thesis
    by (simp add: receiveResponseFromStreamFn_def make_queue_def LoadOrStore_def
        empty_directory_def)
qed

section \<open>The read loops\<close>

lemma ctx_alive_step:
  "ctx_alive_for c (Suc n) \<Longrightarrow> \<not> ctx_done c \<and> ctx_alive_for (ctx_after c) n"
  by (cases c; cases "the c") auto

lemma data_frames_simps [simp]:
  "data_frames [] = []"
  "data_frames (DataFrame d # fs) = d # data_frames fs"
  "data_frames (OtherFrame k # fs) = data_frames fs"
  by (simp_all add: data_frames_def List.map_filter_simps)

lemma parsed_frames_Nil [simp]: "parsed_frames c [] = []"
  by (cases c) (simp_all add: parsed_frames_def)

lemma parsed_frames_Cons:
  "parsed_frames c (r # stream) =
     (if ctx_done c then []
      else case r of Inl err \<Rightarrow> [] | Inr f \<Rightarrow> f # parsed_frames (ctx_after c) stream)"
proof (cases c)
  case None
  then show ?thesis by (simp add: parsed_frames_def split: sum.splits)
next
  case (Some k)
  then show ?thesis by (cases k) (simp_all add: parsed_frames_def split: sum.splits)
qed

subsection \<open>readDataFromSource, one step at a time\<close>

lemma room_for_less: "room_for c (Suc n) \<Longrightarrow> room_for c 1"
  by (simp add: room_for_def split: option.splits)

lemma room_for_sent:
  "room_for c (Suc n) \<Longrightarrow> room_for (c\<lparr>sent := sent c @ [x]\<rparr>) n"
  by (simp add: room_for_def split: option.splits)

lemma source_loop_done:
  "ctx_done c \<Longrightarrow> readDataFromSource_loop c stream w = Returned w"
  by (cases stream) simp_all

lemma source_loop_error:
  "\<not> ctx_done c \<Longrightarrow>
   readDataFromSource_loop c (Inl err # stream) w =
     Returned (w\<lparr>effects := effects w @ [ParseFrame, Log Error ''Parse the frame failed'']\<rparr>)"
  by (simp add: logger_def emit_def)

lemma source_loop_other:
  "\<not> ctx_done c \<Longrightarrow>
   readDataFromSource_loop c (Inr (OtherFrame k) # stream) w =
     readDataFromSource_loop (ctx_after c) stream
       (w\<lparr>effects := effects w @ source_events (OtherFrame k)\<rparr>)"
  by (simp add: logger_def emit_def)

lemma source_loop_data:
  "\<not> ctx_done c \<Longrightarrow> closes (next_ch w) = 0 \<Longrightarrow> room_for (next_ch w) 1 \<Longrightarrow>
   readDataFromSource_loop c (Inr (DataFrame d) # stream) w =
     readDataFromSource_loop (ctx_after c) stream
       (w\<lparr>effects := effects w @ source_events (DataFrame d),
          next_ch := (next_ch w)\<lparr>sent := sent (next_ch w) @ [d]\<rparr>\<rparr>)"
  by (simp add: send_next_def chan_send_def logger_def emit_def)

text \<open>
  A data frame that finds the channel full, with nobody reading: the loop stays in the
  send.
\<close>

lemma source_loop_blocked:
  "\<not> ctx_done c \<Longrightarrow> closes (next_ch w) = 0 \<Longrightarrow> \<not> room_for (next_ch w) 1 \<Longrightarrow>
   readDataFromSource_loop c (Inr (DataFrame d) # stream) w =
     Blocked (w\<lparr>effects := effects w @ source_events (DataFrame d)\<rparr>)"
  by (simp add: send_next_def chan_send_def logger_def emit_def)

lemmas source_steps = source_loop_done source_loop_error source_loop_other source_loop_data
  source_loop_blocked

lemma free_places_sent:
  assumes "room_for c 1"
  shows "take_upto (free_places c) (d # ds) =
           d # take_upto (free_places (c\<lparr>sent := sent c @ [x]\<rparr>)) ds"
proof (cases "receives c")
  case None
  then show ?thesis by (simp add: free_places_def)
next
  case (Some r)
  with assms have "Suc (length (sent c)) \<le> r + capacity c"
    by (simp add: room_for_def)
  then have k: "r + capacity c - length (sent c) = Suc (r + capacity c - Suc (length (sent c)))"
    by arith
  with Some show ?thesis by (simp add: free_places_def)
qed

lemma free_places_full:
  "\<not> room_for c 1 \<Longrightarrow> take_upto (free_places c) ds = []"
  by (cases "receives c") (auto simp: free_places_def room_for_def)

text \<open>
  Whatever the context, the stream and the reader of the channel, the loop sends the data
  frames among the frames it can parse, in order, as far as the channel takes them; it
  leaves the channel open and does not panic.
\<close>

lemma source_loop_sent:
  "closes (next_ch w) = 0 \<Longrightarrow>
   sent (next_ch (state_of (readDataFromSource_loop c stream w))) =
     sent (next_ch w) @ take_upto (free_places (next_ch w)) (data_frames (parsed_frames c stream))
   \<and> closes (next_ch (state_of (readDataFromSource_loop c stream w))) = 0
   \<and> (\<forall>x. readDataFromSource_loop c stream w \<noteq> Panicked x)"
proof (induction stream arbitrary: c w)
  case Nil
  then show ?case by (cases "free_places (next_ch w)") (simp_all add: emit_def)
next
  case (Cons r stream)
  have empty: "take_upto b [] = []" for b :: "nat option"
    by (cases b) simp_all
  show ?case
  proof (cases "ctx_done c")
    case True
    with Cons.prems show ?thesis
      by (simp add: parsed_frames_Cons source_loop_done empty del: readDataFromSource_loop.simps)
  next
    case False
    show ?thesis
    proof (cases r)
      case (Inl err)
      with False Cons.prems show ?thesis
        by (simp add: parsed_frames_Cons source_loop_error empty
            del: readDataFromSource_loop.simps)
    next
      case (Inr f)
      show ?thesis
      proof (cases f)
        case (OtherFrame k)
        let ?w2 = "w\<lparr>effects := effects w @ source_events (OtherFrame k)\<rparr>"
        have c2: "closes (next_ch ?w2) = 0" using Cons.prems by simp
        show ?thesis
          using Cons.IH [OF c2, of "ctx_after c"] False Inr OtherFrame
          by (simp add: source_loop_other parsed_frames_Cons del: readDataFromSource_loop.simps)
      next
        case (DataFrame d)
        show ?thesis
        proof (cases "room_for (next_ch w) 1")
          case True
          let ?w2 = "w\<lparr>effects := effects w @ source_events (DataFrame d),
                        next_ch := (next_ch w)\<lparr>sent := sent (next_ch w) @ [d]\<rparr>\<rparr>"
          have c2: "closes (next_ch ?w2) = 0" using Cons.prems by simp
          show ?thesis
            using Cons.IH [OF c2, of "ctx_after c"] False Inr DataFrame Cons.prems True
              free_places_sent [OF True, of d "data_frames (parsed_frames (ctx_after c) stream)" d]
            by (simp add: source_loop_data parsed_frames_Cons del: readDataFromSource_loop.simps)
        next
          case full: False
          show ?thesis
            using False Inr DataFrame Cons.prems full free_places_full [OF full]
            by (simp add: source_loop_blocked parsed_frames_Cons del: readDataFromSource_loop.simps)
        qed
      qed
    qed
  qed
qed

lemma source_loop_until_error:
  "closes (next_ch w) = 0 \<Longrightarrow> ctx_alive_for c (Suc (length fs)) \<Longrightarrow>
   room_for (next_ch w) (length (data_frames fs)) \<Longrightarrow>
   readDataFromSource_loop c (map Inr fs @ Inl err # rest) w =
     Returned (w\<lparr>effects := effects w @ concat (map source_events fs)
                           @ [ParseFrame, Log Error ''Parse the frame failed''],
               next_ch := (next_ch w)\<lparr>sent := sent (next_ch w) @ data_frames fs\<rparr>\<rparr>)"
proof (induction fs arbitrary: c w)
  case Nil
  then show ?case
    using ctx_alive_step [of c 0]
    by (simp add: source_loop_error del: readDataFromSource_loop.simps)
next
  case (Cons f fs)
  from Cons.prems(2) have alive: "\<not> ctx_done c" "ctx_alive_for (ctx_after c) (Suc (length fs))"
    using ctx_alive_step [of c "Suc (length fs)"] by simp_all
  show ?case
  proof (cases f)
    case (OtherFrame k)
    let ?w2 = "w\<lparr>effects := effects w @ source_events (OtherFrame k)\<rparr>"
    have c2: "closes (next_ch ?w2) = 0" using Cons.prems by simp
    have r2: "room_for (next_ch ?w2) (length (data_frames fs))"
      using Cons.prems(3) OtherFrame by simp
    show ?thesis
      using Cons.IH [OF c2 alive(2) r2] alive(1) OtherFrame
      by (simp add: source_loop_other del: readDataFromSource_loop.simps)
  next
    case (DataFrame d)
    let ?w2 = "w\<lparr>effects := effects w @ source_events (DataFrame d),
                  next_ch := (next_ch w)\<lparr>sent := sent (next_ch w) @ [d]\<rparr>\<rparr>"
    from Cons.prems(3) DataFrame
    have room: "room_for (next_ch w) (Suc (length (data_frames fs)))" by simp
    have c2: "closes (next_ch ?w2) = 0" using Cons.prems by simp
    have r2: "room_for (next_ch ?w2) (length (data_frames fs))"
      using room_for_sent [OF room, of d] by simp
    show ?thesis
      using Cons.IH [OF c2 alive(2) r2] alive(1) DataFrame Cons.prems(1) room_for_less [OF room]
      by (simp add: source_loop_data del: readDataFromSource_loop.simps)
  qed
qed


text \<open>
  When the channel does not take all the data frames of \<open>fs\<close>, the loop stays in the
  send of the first one that finds no place: it does not reach the rest of the stream and
  its channel stays open.
\<close>

lemma source_loop_blocks_when_full:
  "closes (next_ch w) = 0 \<Longrightarrow> ctx_alive_for c (Suc (length fs)) \<Longrightarrow>
   room_for (next_ch w) 0 \<Longrightarrow> \<not> room_for (next_ch w) (length (data_frames fs)) \<Longrightarrow>
   \<exists>w'. readDataFromSource_loop c (map Inr fs @ rest) w = Blocked w'
        \<and> closes (next_ch w') = 0"
proof (induction fs arbitrary: c w)
  case Nil
  then show ?case by simp
next
  case (Cons f fs)
  from Cons.prems(2) have alive: "\<not> ctx_done c" "ctx_alive_for (ctx_after c) (Suc (length fs))"
    using ctx_alive_step [of c "Suc (length fs)"] by simp_all
  show ?case
  proof (cases f)
    case (OtherFrame k)
    let ?w2 = "w\<lparr>effects := effects w @ source_events (OtherFrame k)\<rparr>"
    have c2: "closes (next_ch ?w2) = 0" using Cons.prems by simp
    have r2: "room_for (next_ch ?w2) 0" using Cons.prems(3) by simp
    have n2: "\<not> room_for (next_ch ?w2) (length (data_frames fs))"
      using Cons.prems(4) OtherFrame by simp
    show ?thesis
      using Cons.IH [OF c2 alive(2) r2 n2] alive(1) OtherFrame
      by (simp add: source_loop_other del: readDataFromSource_loop.simps)
  next
    case (DataFrame d)
    show ?thesis
    proof (cases "room_for (next_ch w) 1")
      case True
      let ?w2 = "w\<lparr>effects := effects w @ source_events (DataFrame d),
                    next_ch := (next_ch w)\<lparr>sent := sent (next_ch w) @ [d]\<rparr>\<rparr>"
      have c2: "closes (next_ch ?w2) = 0" using Cons.prems by simp
      have r2: "room_for (next_ch ?w2) 0"
        using True by (simp add: room_for_def split: option.splits)
      have n2: "\<not> room_for (next_ch ?w2) (length (data_frames fs))"
        using Cons.prems(4) DataFrame by (simp add: room_for_def split: option.splits)
      show ?thesis
        using Cons.IH [OF c2 alive(2) r2 n2] alive(1) DataFrame Cons.prems(1) True
        by (simp add: source_loop_data del: readDataFromSource_loop.simps)
    next
      case False
      with alive(1) DataFrame Cons.prems(1) show ?thesis
        by (simp add: source_loop_blocked del: readDataFromSource_loop.simps)
    qed
  qed
qed

lemma count_source_events:
  "count_list (concat (map source_events fs)) ParseFrame = length fs"
proof (induction fs)
  case Nil
  show ?case by simp
next
  case (Cons f fs)
  then show ?case by (cases f) simp_all
qed

text \<open>
  Claim C7. On a stream that yields the frames \<open>fs\<close> and then fails to parse, with a
  context that stays alive that long and a channel that takes the data frames of \<open>fs\<close>
  (its buffer and its reader together), \<open>readDataFromSource\<close> returns with its
  channel holding the data frames of \<open>fs\<close>, in order, and closed once; the other frames
  are logged and not sent; the failure is logged and \<^verbatim>\<open>ParseFrame\<close> is not called again.
  On any stream, with any context and any reader, the items sent are the data frames
  among the frames parsed, in order, as far as the channel takes them.
\<close>

theorem readDataFromSource_forwards_data_frames:
  assumes "ctx_alive_for c (Suc (length fs))"
    and "room_for (make_chan bufferSize rcv :: data_frame chan) (length (data_frames fs))"
  shows "readDataFromSource c (map Inr fs @ Inl err # rest) rcv =
           Returned \<lparr>next_ch = \<lparr>capacity = bufferSize, receives = rcv,
                                 sent = data_frames fs, closes = 1\<rparr>,
                     effects = concat (map source_events fs)
                                 @ [ParseFrame, Log Error ''Parse the frame failed'']\<rparr>
    \<and> count_list (effects (state_of (readDataFromSource c (map Inr fs @ Inl err # rest) rcv)))
         ParseFrame = Suc (length fs)
    \<and> sent (next_ch (state_of (readDataFromSource c stream rcv2))) =
         take_upto (map_option (\<lambda>r. r + bufferSize) rcv2) (data_frames (parsed_frames c stream))"
proof -
  let ?w0 = "\<lparr>next_ch = make_chan bufferSize rcv, effects = []\<rparr>"
  let ?w2 = "\<lparr>next_ch = make_chan bufferSize rcv2, effects = []\<rparr>"
  have c0: "closes (next_ch ?w0) = 0" by (simp add: make_chan_def)
  have c2: "closes (next_ch ?w2) = 0" by (simp add: make_chan_def)
  have r0: "room_for (next_ch ?w0) (length (data_frames fs))" using assms(2) by simp
  have keep: "sent (next_ch (state_of (deferred_close r))) = sent (next_ch (state_of r))" for r
    by (cases r) (simp_all add: chan_close_def)
  have a: "sent (next_ch (state_of (readDataFromSource c stream rcv2))) =
         take_upto (map_option (\<lambda>r. r + bufferSize) rcv2) (data_frames (parsed_frames c stream))"
    using source_loop_sent [OF c2, of c stream]
    by (simp add: readDataFromSource_def keep make_chan_def free_places_def)
  have b: "readDataFromSource c (map Inr fs @ Inl err # rest) rcv =
           Returned \<lparr>next_ch = \<lparr>capacity = bufferSize, receives = rcv,
                                 sent = data_frames fs, closes = 1\<rparr>,
                     effects = concat (map source_events fs)
                                 @ [ParseFrame, Log Error ''Parse the frame failed'']\<rparr>"
    using source_loop_until_error [OF c0 assms(1) r0, of err rest]
    by (simp add: readDataFromSource_def make_chan_def chan_close_def)
  from a b show ?thesis by (simp add: count_source_events)
qed

theorem readDataFromSource_forwards_data_frames_witness:
  "ctx_alive_for None (Suc (length [DataFrame frame_a, OtherFrame 1, DataFrame frame_b]))
   \<and> room_for (make_chan bufferSize (Some 0) :: data_frame chan)
       (length (data_frames [DataFrame frame_a, OtherFrame 1, DataFrame frame_b]))
   \<and> readDataFromSource None
       [Inr (DataFrame frame_a), Inr (OtherFrame 1), Inr (DataFrame frame_b), Inl ''EOF'']
       (Some 0)
     = Returned \<lparr>next_ch = \<lparr>capacity = 100, receives = Some 0,
                              sent = [frame_a, frame_b], closes = 1\<rparr>,
         effects =
           [ParseFrame, Log Debug ''Receive data frame from source.'',
            ParseFrame, Log Debug ''Only dispatch data frame to stream functions.'',
            ParseFrame, Log Debug ''Receive data frame from source.'',
            ParseFrame, Log Error ''Parse the frame failed'']\<rparr>"
proof -
  have h: "ctx_alive_for None (Suc (length [DataFrame frame_a, OtherFrame 1, DataFrame frame_b]))"
    by simp
  have r: "room_for (make_chan bufferSize (Some 0) :: data_frame chan)
       (length (data_frames [DataFrame frame_a, OtherFrame 1, DataFrame frame_b]))"
    by (simp add: room_for_def make_chan_def bufferSize_def)
  from readDataFromSource_forwards_data_frames
    [OF h r, where err = "''EOF''" and rest = "[]" and stream = "[]" and ?rcv2.0 = None] h r
  show ?thesis by (simp add: bufferSize_def)
qed

subsection \<open>readDataFromStreamFn, one step at a time\<close>

lemma stream_fn_done:
  "ctx_done c \<Longrightarrow> readDataFromStreamFn E c name stream w = Returned w"
  by (cases stream) simp_all

lemma stream_fn_error:
  "\<not> ctx_done c \<Longrightarrow>
   readDataFromStreamFn E c name (Inl err # stream) w =
     Returned (w\<lparr>effects := effects w @
       [Log Printf ''waiting read next..'', ParseFrame,
        Log Debug ''[MergeStreamFunc] YoMo-Zipper received data from stream-fn failed.'']\<rparr>)"
  by (simp add: logger_def emit_def)

lemma stream_fn_skip:
  "\<not> ctx_done c \<Longrightarrow>
   readDataFromStreamFn E c name (Inr (OtherFrame k) # stream) w =
     readDataFromStreamFn E (ctx_after c) name stream (w\<lparr>effects := effects w @ skipped_events\<rparr>)"
  by (simp add: logger_def emit_def skipped_events_def)

lemma stream_fn_data:
  "\<not> ctx_done c \<Longrightarrow> closes (next_ch w) = 0 \<Longrightarrow> room_for (next_ch w) 1 \<Longrightarrow>
   readDataFromStreamFn E c name (Inr (DataFrame d) # stream) w =
     Returned (w\<lparr>effects := effects w @ received_events @
                    (case NewSpanFromData E (carriage d) name (''zipper-receive-from-'' @ name) of
                       None \<Rightarrow> [] | Some sp \<Rightarrow> [SpanEnd sp]),
                next_ch := (next_ch w)\<lparr>sent := sent (next_ch w) @ [d]\<rparr>\<rparr>)"
  by (simp add: logger_def emit_def received_events_def send_next_def chan_send_def Let_def
      run_deferred_Returned split: option.splits)

lemma stream_fn_data_closed:
  "\<not> ctx_done c \<Longrightarrow> 0 < closes (next_ch w) \<Longrightarrow>
   readDataFromStreamFn E c name (Inr (DataFrame d) # stream) w =
     Panicked (w\<lparr>effects := effects w @ received_events @
                    (case NewSpanFromData E (carriage d) name (''zipper-receive-from-'' @ name) of
                       None \<Rightarrow> [] | Some sp \<Rightarrow> [SpanEnd sp])\<rparr>)"
  by (simp add: logger_def emit_def received_events_def send_next_def chan_send_def Let_def
      run_deferred_Panicked split: option.splits)

lemma stream_fn_data_full:
  "\<not> ctx_done c \<Longrightarrow> closes (next_ch w) = 0 \<Longrightarrow> \<not> room_for (next_ch w) 1 \<Longrightarrow>
   readDataFromStreamFn E c name (Inr (DataFrame d) # stream) w =
     Blocked (w\<lparr>effects := effects w @ received_events\<rparr>)"
  by (simp add: logger_def emit_def received_events_def send_next_def chan_send_def Let_def
      run_deferred_Blocked)

text \<open>Whatever the context, the stream and the channel, at most one frame is sent.\<close>

lemma stream_fn_at_most_one:
  "length (forwarded w (state_of (readDataFromStreamFn E c name stream w))) \<le> 1"
proof (induction stream arbitrary: c w)
  case Nil
  then show ?case by (simp add: forwarded_def logger_def emit_def)
next
  case (Cons r stream)
  show ?case
  proof (cases "ctx_done c")
    case True
    then show ?thesis by (simp add: stream_fn_done forwarded_def del: readDataFromStreamFn.simps)
  next
    case False
    show ?thesis
    proof (cases r)
      case (Inl err)
      with False show ?thesis
        by (simp add: stream_fn_error forwarded_def del: readDataFromStreamFn.simps)
    next
      case (Inr f)
      show ?thesis
      proof (cases f)
        case (DataFrame d)
        consider "0 < closes (next_ch w)"
          | "closes (next_ch w) = 0" "room_for (next_ch w) 1"
          | "closes (next_ch w) = 0" "\<not> room_for (next_ch w) 1"
          by auto
        then show ?thesis
        proof cases
          case 1
          with False Inr DataFrame show ?thesis
            by (simp add: stream_fn_data_closed forwarded_def del: readDataFromStreamFn.simps)
        next
          case 2
          with False Inr DataFrame show ?thesis
            by (simp add: stream_fn_data forwarded_def del: readDataFromStreamFn.simps)
        next
          case 3
          with False Inr DataFrame show ?thesis
            by (simp add: stream_fn_data_full forwarded_def del: readDataFromStreamFn.simps)
        qed
      next
        case (OtherFrame k)
        have "forwarded (w\<lparr>effects := effects w @ skipped_events\<rparr>) = forwarded w"
          by (simp add: forwarded_def fun_eq_iff)
        with False Inr OtherFrame
          Cons.IH [of "w\<lparr>effects := effects w @ skipped_events\<rparr>" "ctx_after c"]
        show ?thesis
          by (simp add: stream_fn_skip del: readDataFromStreamFn.simps)
      qed
    qed
  qed
qed

text \<open>
  Frames that are not data frames are passed over one by one, each at the cost of a poll
  of the context; what follows them is read next.
\<close>

lemma stream_fn_skip_all:
  "ctx_alive_for c (Suc (length ks)) \<Longrightarrow>
   \<exists>c'. \<not> ctx_done c' \<and>
     (\<forall>tail w. readDataFromStreamFn E c name (map (\<lambda>k. Inr (OtherFrame k)) ks @ tail) w =
        readDataFromStreamFn E c' name tail
          (w\<lparr>effects := effects w @ concat (map (\<lambda>k. skipped_events) ks)\<rparr>))"
proof (induction ks arbitrary: c)
  case Nil
  then have "\<not> ctx_done c" using ctx_alive_step [of c 0] by simp
  then show ?case by (intro exI [of _ c]) simp
next
  case (Cons k ks)
  from Cons.prems have alive: "\<not> ctx_done c" "ctx_alive_for (ctx_after c) (Suc (length ks))"
    using ctx_alive_step [of c "Suc (length ks)"] by simp_all
  from Cons.IH [OF alive(2)] obtain c' where c': "\<not> ctx_done c'"
    and run: "\<And>tail w. readDataFromStreamFn E (ctx_after c) name
                 (map (\<lambda>k. Inr (OtherFrame k)) ks @ tail) w =
               readDataFromStreamFn E c' name tail
                 (w\<lparr>effects := effects w @ concat (map (\<lambda>k. skipped_events) ks)\<rparr>)"
    by blast
  show ?case
  proof (intro exI [of _ c'] conjI allI)
    show "\<not> ctx_done c'" by (rule c')
  next
    fix tail w
    show "readDataFromStreamFn E c name (map (\<lambda>k. Inr (OtherFrame k)) (k # ks) @ tail) w =
            readDataFromStreamFn E c' name tail
              (w\<lparr>effects := effects w @ concat (map (\<lambda>k. skipped_events) (k # ks))\<rparr>)"
      using alive(1) run [of tail "w\<lparr>effects := effects w @ skipped_events\<rparr>"]
      by (simp add: stream_fn_skip del: readDataFromStreamFn.simps)
  qed
qed

lemma count_concat_skipped:
  "count_list (concat (map (\<lambda>k. skipped_events) ks)) ParseFrame = length ks"
  by (induction ks) (simp_all add: skipped_events_def)

text \<open>
  Claim C6 says that \<open>readDataFromStreamFn\<close> parses one frame and, when that frame is
  not a data frame, exits without forwarding. On a stream that yields a frame of another
  kind and then the data frame a, the function calls \<^verbatim>\<open>ParseFrame\<close> twice and sends a.
\<close>

theorem readDataFromStreamFn_reads_on_after_other_frame:
  "sent (next_ch (state_of (readDataFromStreamFn example_env None ''fn''
      [Inr (OtherFrame 1), Inr (DataFrame frame_a)] fresh_world))) = [frame_a]
   \<and> count_list (effects (state_of (readDataFromStreamFn example_env None ''fn''
      [Inr (OtherFrame 1), Inr (DataFrame frame_a)] fresh_world))) ParseFrame = 2"
  by (simp add: example_defs logger_def emit_def send_next_def chan_send_def Let_def)

text \<open>
  Claim C6, amended. \<open>readDataFromStreamFn\<close> sends at most one frame, whatever it
  reads. While the context is alive it parses frame after frame: a frame that is not a
  data frame is logged and passed over, and the next frame of the same stream is parsed;
  at the first parse failure it returns without sending; at the first data frame it sends
  that frame once and returns, when the channel \<^verbatim>\<open>next\<close> is open and takes the item.
  When the channel is closed that send panics, and when it is open but takes no more
  items the goroutine stays in the send; in both cases nothing is sent. After
  \<open>length ks\<close> frames of other kinds \<^verbatim>\<open>ParseFrame\<close> has been called
  \<open>length ks + 1\<close> times.
\<close>

theorem readDataFromStreamFn_first_data_frame:
  assumes "ctx_alive_for c (Suc (length ks))"
  shows "length (forwarded w (state_of (readDataFromStreamFn E c name stream w))) \<le> 1
    \<and> (\<exists>w'. readDataFromStreamFn E c name (map (\<lambda>k. Inr (OtherFrame k)) ks @ Inl err # rest) w
               = Returned w'
            \<and> forwarded w w' = []
            \<and> count_list (new_events w w') ParseFrame = Suc (length ks))
    \<and> (closes (next_ch w) = 0 \<and> room_for (next_ch w) 1 \<longrightarrow>
         (\<exists>w'. readDataFromStreamFn E c name
                  (map (\<lambda>k. Inr (OtherFrame k)) ks @ Inr (DataFrame d) # rest) w = Returned w'
             \<and> forwarded w w' = [d]
             \<and> count_list (new_events w w') ParseFrame = Suc (length ks)))
    \<and> (0 < closes (next_ch w) \<longrightarrow>
         (\<exists>w'. readDataFromStreamFn E c name
                  (map (\<lambda>k. Inr (OtherFrame k)) ks @ Inr (DataFrame d) # rest) w = Panicked w'
             \<and> next_ch w' = next_ch w))
    \<and> (closes (next_ch w) = 0 \<and> \<not> room_for (next_ch w) 1 \<longrightarrow>
         (\<exists>w'. readDataFromStreamFn E c name
                  (map (\<lambda>k. Inr (OtherFrame k)) ks @ Inr (DataFrame d) # rest) w = Blocked w'
             \<and> next_ch w' = next_ch w))"
proof -
  from stream_fn_skip_all [OF assms, of E name] obtain c' where c': "\<not> ctx_done c'"
    and run: "\<And>tail w. readDataFromStreamFn E c name (map (\<lambda>k. Inr (OtherFrame k)) ks @ tail) w =
               readDataFromStreamFn E c' name tail
                 (w\<lparr>effects := effects w @ concat (map (\<lambda>k. skipped_events) ks)\<rparr>)"
    by blast
  let ?w1 = "w\<lparr>effects := effects w @ concat (map (\<lambda>k. skipped_events) ks)\<rparr>"
  have n: "next_ch ?w1 = next_ch w" by simp
  have one: "length (forwarded w (state_of (readDataFromStreamFn E c name stream w))) \<le> 1"
    by (rule stream_fn_at_most_one)
  have e: "\<exists>w'. readDataFromStreamFn E c name (map (\<lambda>k. Inr (OtherFrame k)) ks @ Inl err # rest) w
               = Returned w'
            \<and> forwarded w w' = []
            \<and> count_list (new_events w w') ParseFrame = Suc (length ks)"
    using stream_fn_error [OF c', of E name err rest ?w1]
    by (simp add: run forwarded_def new_events_def count_concat_skipped
        del: readDataFromStreamFn.simps)
  have s: "\<exists>w'. readDataFromStreamFn E c name
                  (map (\<lambda>k. Inr (OtherFrame k)) ks @ Inr (DataFrame d) # rest) w = Returned w'
             \<and> forwarded w w' = [d]
             \<and> count_list (new_events w w') ParseFrame = Suc (length ks)"
    if "closes (next_ch w) = 0" "room_for (next_ch w) 1"
    using stream_fn_data [OF c', of ?w1 E name d rest] that
    by (simp add: run forwarded_def new_events_def count_concat_skipped received_events_def
        room_for_def del: readDataFromStreamFn.simps split: option.splits)
  have p: "\<exists>w'. readDataFromStreamFn E c name
                  (map (\<lambda>k. Inr (OtherFrame k)) ks @ Inr (DataFrame d) # rest) w = Panicked w'
             \<and> next_ch w' = next_ch w"
    if "0 < closes (next_ch w)"
    using stream_fn_data_closed [OF c', of ?w1 E name d rest] that
    by (simp add: run del: readDataFromStreamFn.simps)
  have b: "\<exists>w'. readDataFromStreamFn E c name
                  (map (\<lambda>k. Inr (OtherFrame k)) ks @ Inr (DataFrame d) # rest) w = Blocked w'
             \<and> next_ch w' = next_ch w"
    if "closes (next_ch w) = 0" "\<not> room_for (next_ch w) 1"
    using stream_fn_data_full [OF c', of ?w1 E name d rest] that
    by (simp add: run room_for_def del: readDataFromStreamFn.simps)
  from one e s p b show ?thesis by blast
qed

theorem readDataFromStreamFn_first_data_frame_witness:
  "ctx_alive_for (Some 2) (Suc (length [1 :: nat]))
   \<and> (\<exists>w'. readDataFromStreamFn example_env (Some 2) ''fn''
              [Inr (OtherFrame 1), Inl ''EOF''] fresh_world = Returned w'
          \<and> forwarded fresh_world w' = []
          \<and> count_list (new_events fresh_world w') ParseFrame = 2)
   \<and> closes (next_ch fresh_world) = 0 \<and> room_for (next_ch fresh_world) 1
   \<and> (\<exists>w'. readDataFromStreamFn example_env (Some 2) ''fn''
              [Inr (OtherFrame 1), Inr (DataFrame frame_b), Inr (DataFrame frame_c)] fresh_world
             = Returned w'
          \<and> forwarded fresh_world w' = [frame_b]
          \<and> count_list (new_events fresh_world w') ParseFrame = 2)
   \<and> 0 < closes (next_ch closed_world)
   \<and> (\<exists>w'. readDataFromStreamFn example_env (Some 2) ''fn''
              [Inr (OtherFrame 1), Inr (DataFrame frame_b), Inr (DataFrame frame_c)] closed_world
             = Panicked w'
          \<and> next_ch w' = next_ch closed_world)
   \<and> closes (next_ch full_world) = 0 \<and> \<not> room_for (next_ch full_world) 1
   \<and> (\<exists>w'. readDataFromStreamFn example_env (Some 2) ''fn''
              [Inr (OtherFrame 1), Inr (DataFrame frame_b), Inr (DataFrame frame_c)] full_world
             = Blocked w'
          \<and> next_ch w' = next_ch full_world)"
proof -
  have a: "ctx_alive_for (Some 2) (Suc (length [1 :: nat]))" by simp
  have c: "closes (next_ch fresh_world) = 0 \<and> room_for (next_ch fresh_world) 1"
    by (simp add: example_defs)
  have k: "0 < closes (next_ch closed_world)"
    by (simp add: example_defs)
  have f: "closes (next_ch full_world) = 0 \<and> \<not> room_for (next_ch full_world) 1"
    by (simp add: example_defs)
  from readDataFromStreamFn_first_data_frame
    [OF a, where E = example_env and name = "''fn''" and stream = "[]" and err = "''EOF''"
       and rest = "[]" and d = frame_b and w = fresh_world]
  have e: "\<exists>w'. readDataFromStreamFn example_env (Some 2) ''fn''
              [Inr (OtherFrame 1), Inl ''EOF''] fresh_world = Returned w'
          \<and> forwarded fresh_world w' = []
          \<and> count_list (new_events fresh_world w') ParseFrame = 2"
    by (auto simp del: readDataFromStreamFn.simps)
  from readDataFromStreamFn_first_data_frame
    [OF a, where E = example_env and name = "''fn''" and stream = "[]" and err = "''EOF''"
       and rest = "[Inr (DataFrame frame_c)]" and d = frame_b and w = fresh_world] c
  have d: "\<exists>w'. readDataFromStreamFn example_env (Some 2) ''fn''
              [Inr (OtherFrame 1), Inr (DataFrame frame_b), Inr (DataFrame frame_c)] fresh_world
             = Returned w'
          \<and> forwarded fresh_world w' = [frame_b]
          \<and> count_list (new_events fresh_world w') ParseFrame = 2"
    by (auto simp del: readDataFromStreamFn.simps)
  from readDataFromStreamFn_first_data_frame
    [OF a, where E = example_env and name = "''fn''" and stream = "[]" and err = "''EOF''"
       and rest = "[Inr (DataFrame frame_c)]" and d = frame_b and w = closed_world] k
  have p: "\<exists>w'. readDataFromStreamFn example_env (Some 2) ''fn''
              [Inr (OtherFrame 1), Inr (DataFrame frame_b), Inr (DataFrame frame_c)] closed_world
             = Panicked w'
          \<and> next_ch w' = next_ch closed_world"
    by (auto simp del: readDataFromStreamFn.simps)
  from readDataFromStreamFn_first_data_frame
    [OF a, where E = example_env and name = "''fn''" and stream = "[]" and err = "''EOF''"
       and rest = "[Inr (DataFrame frame_c)]" and d = frame_b and w = full_world] f
  have b: "\<exists>w'. readDataFromStreamFn example_env (Some 2) ''fn''
              [Inr (OtherFrame 1), Inr (DataFrame frame_b), Inr (DataFrame frame_c)] full_world
             = Blocked w'
          \<and> next_ch w' = next_ch full_world"
    by (auto simp del: readDataFromStreamFn.simps)
  from a c k f e d p b show ?thesis by blast
qed

section \<open>Cancellation\<close>








end
